theory Spec2Isabelle
  imports Complex_Main
begin

section \<open>Conventions of the embedding\<close>

text \<open>
  The program is \<^verbatim>\<open>inv-checker.py\<close>: a rate limiter, a price cache with a time to
  live, and a client that pages through an inventory and looks up one price per item.

  Time is a real number of seconds since the epoch. A state carries the clock that
  \<^verbatim>\<open>time.time()\<close> and \<^verbatim>\<open>datetime.now()\<close> read; \<^verbatim>\<open>time.sleep(d)\<close> moves it forward by
  \<open>d\<close>, and an HTTP request moves it forward by the latency the world gives that request.
  The world is what the program cannot decide: the outcome and the latency of the
  \<open>i\<close>-th HTTP request and the \<open>i\<close>-th random number. Every theorem holds for all worlds.
  Printing is not modelled, and neither is the cache file: \<^verbatim>\<open>save_cache\<close> catches its
  own \<^verbatim>\<open>IOError\<close> and the dictionary in memory is what \<^verbatim>\<open>get\<close> reads.

  A Python float is the real number it stands for. The sums, differences and products
  of times and delays are taken as they are in the reals. Where the code turns an
  integer into a float or divides two integers, the result is rounded to a binary64
  number or the operation raises \<^verbatim>\<open>OverflowError\<close>: both are in the model. The
  \<^verbatim>\<open>datetime\<close> module is a parameter of the cache, so that nothing is assumed about the
  time zone of the machine or the rounding of the module.
\<close>

section \<open>Exceptions and floats\<close>

text \<open>The exceptions that the three classes can raise or let through.\<close>

datatype py_error = UnboundLocalError | OverflowError | ValueError | ZeroDivisionError

text \<open>The integer nearest to \<open>x\<close>, the even one of the two when \<open>x\<close> is half way.\<close>

definition round_half_even :: "real \<Rightarrow> int" where
  "round_half_even x =
     (let f = \<lfloor>x\<rfloor>; d = x - of_int f
      in if d < 1/2 then f else if 1/2 < d then f + 1 else if even f then f else f + 1)"

text \<open>
  The binary64 number nearest to \<open>x\<close>, ties to even, with no bound on the exponent from
  above: 53 significant bits for a normal number, multiples of \<open>2 ^ -1074\<close> below
  \<open>2 ^ -1022\<close>.
\<close>

definition round_binary64 :: "real \<Rightarrow> real" where
  "round_binary64 x =
     (if x = 0 then 0
      else (let e = max \<lfloor>log 2 \<bar>x\<bar>\<rfloor> (- 1022);
                u = 2 powr (of_int e - 52)
            in of_int (round_half_even (x / u)) * u))"

text \<open>
  \<^verbatim>\<open>a / b\<close> for two Python integers: the quotient rounded once to a float, and
  \<^verbatim>\<open>OverflowError\<close> when the rounded quotient is beyond the largest float.
\<close>

definition truediv :: "int \<Rightarrow> int \<Rightarrow> py_error + real" where
  "truediv a b =
     (if b = 0 then Inl ZeroDivisionError
      else (let y = round_binary64 (of_int a / of_int b)
            in if 2 ^ 1024 \<le> \<bar>y\<bar> then Inl OverflowError else Inr y))"

section \<open>RateLimiter\<close>

record rate_limiter =
  base_delay :: real
  max_delay :: real
  jitter :: real
  last_request_time :: real
  consecutive_429 :: nat

text \<open>\<^verbatim>\<open>__init__(self, base_delay=1.0, max_delay=60.0, jitter=0.2)\<close>\<close>

definition RateLimiter :: "real \<Rightarrow> real \<Rightarrow> real \<Rightarrow> rate_limiter" where
  "RateLimiter b m j =
     \<lparr>base_delay = b, max_delay = m, jitter = j, last_request_time = 0, consecutive_429 = 0\<rparr>"

text \<open>
  \<^verbatim>\<open>random.uniform(a, b)\<close> is \<^verbatim>\<open>a + (b - a) * random()\<close>; the argument \<open>r\<close> is the value
  of \<^verbatim>\<open>random()\<close>, a number of the interval from 0 to 1.
\<close>

definition random_uniform :: "real \<Rightarrow> real \<Rightarrow> real \<Rightarrow> real" where
  "random_uniform a b r = a + (b - a) * r"

text \<open>
  \<^verbatim>\<open>wait\<close>, called at time \<open>now\<close> with the random number \<open>r\<close>. The result is the
  duration handed to \<^verbatim>\<open>time.sleep\<close> (\<open>None\<close> when the branch is not taken) and the
  limiter afterwards; the second reading of the clock is \<open>now\<close> plus the time slept.
\<close>

definition wait :: "rate_limiter \<Rightarrow> real \<Rightarrow> real \<Rightarrow> real option \<times> rate_limiter" where
  "wait l now r =
     (let elapsed = now - last_request_time l;
          delay0 = base_delay l;
          jitter_amount = random_uniform (- jitter l * delay0) (jitter l * delay0) r;
          delay = delay0 + jitter_amount;
          sl = (if elapsed < delay then Some (delay - elapsed) else None)
      in (sl, l\<lparr>last_request_time := now + (case sl of None \<Rightarrow> 0 | Some d \<Rightarrow> d)\<rparr>))"

text \<open>
  \<^verbatim>\<open>handle_429\<close>: the duration slept, or the exception raised, and the limiter afterwards.
  The counter is incremented first. \<^verbatim>\<open>base_delay\<close> is a float, so the product of line 45
  turns the integer \<^verbatim>\<open>2 ** consecutive_429\<close> into a float, which raises
  \<^verbatim>\<open>OverflowError\<close> from \<open>2 ^ 1024\<close> on; and \<^verbatim>\<open>time.sleep\<close> raises \<^verbatim>\<open>ValueError\<close> for a
  negative duration.
\<close>

definition handle_429 :: "rate_limiter \<Rightarrow> (py_error + real) \<times> rate_limiter" where
  "handle_429 l =
     (let c = consecutive_429 l + 1;
          l1 = l\<lparr>consecutive_429 := c\<rparr>
      in if 1024 \<le> c then (Inl OverflowError, l1)
         else (let delay = min (base_delay l * 2 ^ c) (max_delay l)
               in if delay < 0 then (Inl ValueError, l1) else (Inr delay, l1)))"

definition success :: "rate_limiter \<Rightarrow> rate_limiter" where
  "success l = l\<lparr>consecutive_429 := 0\<rparr>"

text \<open>
  What \<open>n\<close> calls of \<^verbatim>\<open>handle_429\<close> in a row do, in the order of the calls, each call
  made whatever the one before did.
\<close>

fun handle_429_run :: "nat \<Rightarrow> rate_limiter \<Rightarrow> (py_error + real) list \<times> rate_limiter" where
  "handle_429_run 0 l = ([], l)"
| "handle_429_run (Suc n) l =
     (let (d, l1) = handle_429 l; (ds, l2) = handle_429_run n l1 in (d # ds, l2))"

section \<open>PriceCache\<close>

record price_record =
  price :: real
  quantity :: int

text \<open>
  One value of the dictionary \<^verbatim>\<open>self.cache\<close>. The file it is loaded from may lack
  either key, so both are optional, as \<^verbatim>\<open>dict.get\<close> reads them.
\<close>

record cache_entry =
  data :: "price_record option"
  timestamp :: "real option"

record price_cache =
  cache_duration :: real
  cache :: "string \<Rightarrow> cache_entry option"

text \<open>
  The three calls of the \<^verbatim>\<open>datetime\<close> module, as the machine answers them. A naive
  local datetime is a number of seconds on the local calendar, counted from
  1970-01-01 00:00 local; a \<^verbatim>\<open>timedelta\<close> is a difference of two of them.
  \<^item> \<open>local_now t\<close> is \<^verbatim>\<open>datetime.now()\<close> read at the time \<open>t\<close>;
  \<^item> \<open>now_timestamp t\<close> is \<^verbatim>\<open>datetime.now().timestamp()\<close> read at the time \<open>t\<close>;
  \<^item> \<open>fromtimestamp ts\<close> is \<^verbatim>\<open>datetime.fromtimestamp(ts)\<close>, which raises for a timestamp
    out of its range.
\<close>

record datetime_api =
  local_now :: "real \<Rightarrow> real"
  now_timestamp :: "real \<Rightarrow> real"
  fromtimestamp :: "real \<Rightarrow> py_error + real"

text \<open>
  \<^verbatim>\<open>get\<close> at the time \<open>t\<close>. \<^verbatim>\<open>if timestamp:\<close> is false for a missing timestamp and for
  the number zero; the age is then not looked at. The age is the difference of two
  naive local datetimes.
\<close>

definition PriceCache_get ::
  "datetime_api \<Rightarrow> price_cache \<Rightarrow> real \<Rightarrow> string \<Rightarrow> py_error + price_record option" where
  "PriceCache_get dt c t item_name =
     (case cache c item_name of
        None \<Rightarrow> Inr None
      | Some cached_item \<Rightarrow>
          (case timestamp cached_item of
             None \<Rightarrow> Inr (data cached_item)
           | Some ts \<Rightarrow>
               if ts \<noteq> 0 then
                 (case fromtimestamp dt ts of
                    Inl e \<Rightarrow> Inl e
                  | Inr cached_time \<Rightarrow>
                      if local_now dt t - cached_time > cache_duration c then Inr None
                      else Inr (data cached_item))
               else Inr (data cached_item)))"

definition PriceCache_set ::
  "datetime_api \<Rightarrow> price_cache \<Rightarrow> real \<Rightarrow> string \<Rightarrow> price_record \<Rightarrow> price_cache" where
  "PriceCache_set dt c t item_name d =
     c\<lparr>cache := (cache c)(item_name \<mapsto> \<lparr>data = Some d, timestamp = Some (now_timestamp dt t)\<rparr>)\<rparr>"

section \<open>The world and the client's state\<close>

text \<open>
  What \<^verbatim>\<open>session.get\<close> and the two lines after it can do: raise (an \<^verbatim>\<open>HTTPError\<close> with
  the status of its response, if it has one, or another \<^verbatim>\<open>RequestException\<close>), or give a
  response with a status code whose \<^verbatim>\<open>json()\<close> either raises or parses to a payload.
\<close>

datatype request_error = HTTPError "nat option" | RequestException

datatype 'b json = JSONDecodeError | Parsed 'b

datatype 'b outcome = Raises request_error | Response nat "'b json"

record 'b world =
  net :: "nat \<Rightarrow> 'b outcome"
  lat :: "nat \<Rightarrow> real"
  rnd :: "nat \<Rightarrow> real"

text \<open>
  \<^verbatim>\<open>SteamMarketAPI\<close>: its limiter and cache, with the clock, the number of HTTP requests
  sent, the number of random numbers drawn and the durations slept (latest first).
\<close>

record client =
  limiter :: rate_limiter
  api_cache :: price_cache
  clock :: real
  requests :: nat
  draws :: nat
  slept :: "real list"

definition time_sleep :: "real \<Rightarrow> client \<Rightarrow> client" where
  "time_sleep d s = s\<lparr>clock := clock s + d, slept := d # slept s\<rparr>"

definition limiter_wait :: "'b world \<Rightarrow> client \<Rightarrow> client" where
  "limiter_wait w s =
     (let (sl, l) = wait (limiter s) (clock s) (rnd w (draws s));
          s1 = s\<lparr>limiter := l, draws := Suc (draws s)\<rparr>
      in case sl of None \<Rightarrow> s1 | Some d \<Rightarrow> time_sleep d s1)"

text \<open>\<^verbatim>\<open>self.limiter.handle_429()\<close>: the exception it raises, if any, and the state afterwards.\<close>

definition limiter_handle_429 :: "client \<Rightarrow> py_error option \<times> client" where
  "limiter_handle_429 s =
     (let (r, l) = handle_429 (limiter s);
          s1 = s\<lparr>limiter := l\<rparr>
      in case r of Inl e \<Rightarrow> (Some e, s1) | Inr d \<Rightarrow> (None, time_sleep d s1))"

definition limiter_success :: "client \<Rightarrow> client" where
  "limiter_success s = s\<lparr>limiter := success (limiter s)\<rparr>"

definition session_get :: "'b world \<Rightarrow> client \<Rightarrow> 'b outcome \<times> client" where
  "session_get w s =
     (net w (requests s),
      s\<lparr>clock := clock s + lat w (requests s), requests := Suc (requests s)\<rparr>)"

text \<open>\<^verbatim>\<open>raise_for_status\<close> raises for the client and server error codes.\<close>

definition raise_for_status :: "nat \<Rightarrow> bool" where
  "raise_for_status st = (400 \<le> st \<and> st < 600)"

section \<open>SteamMarketAPI.get_price\<close>

text \<open>
  One entry of \<^verbatim>\<open>listinginfo\<close>. A key that is missing is \<open>None\<close>; \<^verbatim>\<open>info.get\<close> then gives
  its default. The payload of the listing endpoint is the list of the values of
  \<^verbatim>\<open>listinginfo\<close> in the order of the dictionary, empty when the key is missing or its
  value is empty. A payload of another shape makes the parsing code raise inside the
  \<^verbatim>\<open>try\<close>, where \<^verbatim>\<open>except Exception\<close> catches it as it catches \<open>JSONDecodeError\<close>. The
  amounts are JSON integers.
\<close>

record listing =
  converted_price :: "int option"
  converted_fee :: "int option"
  listing_quantity :: "int option"

text \<open>\<^verbatim>\<open>d.get(key, default)\<close>, for the value \<open>v\<close> of the key (\<open>None\<close> when it is missing).\<close>

definition get_or :: "'a option \<Rightarrow> 'a \<Rightarrow> 'a" where
  "get_or v d = (case v of None \<Rightarrow> d | Some x \<Rightarrow> x)"

definition zero_fallback :: price_record where
  "zero_fallback = \<lparr>price = 0, quantity = 0\<rparr>"

text \<open>
  Lines 207 to 218: the result computed from a parsed response, or the exception of the
  division of line 217.
\<close>

definition parse_listinginfo :: "listing list \<Rightarrow> py_error + price_record" where
  "parse_listinginfo listinginfo =
     (case listinginfo of
        [] \<Rightarrow> Inr \<lparr>price = 0, quantity = 0\<rparr>
      | info # _ \<Rightarrow>
          (let price_raw = converted_price info;
               fee_raw = get_or (converted_fee info) 0;
               quantity = get_or (listing_quantity info) 0
           in case price_raw of
                None \<Rightarrow> Inr \<lparr>price = 0, quantity = quantity\<rparr>
              | Some p \<Rightarrow>
                  (case truediv (p + fee_raw) 100 of
                     Inl e \<Rightarrow> Inl e
                   | Inr v \<Rightarrow> Inr \<lparr>price = v, quantity = quantity\<rparr>)))"

definition cache_set :: "datetime_api \<Rightarrow> string \<Rightarrow> price_record \<Rightarrow> client \<Rightarrow> client" where
  "cache_set dt item_name d s =
     s\<lparr>api_cache := PriceCache_set dt (api_cache s) (clock s) item_name d\<rparr>"

text \<open>
  How one iteration of the \<^verbatim>\<open>for\<close> loop ends: at the end of its body or a
  \<^verbatim>\<open>continue\<close>, in a \<^verbatim>\<open>return\<close>, or in an exception that no handler catches.
\<close>

datatype price_step = Continue | Return price_record | Raise py_error

text \<open>Lines 229 to 234: what follows a handler that does not \<^verbatim>\<open>continue\<close>.\<close>

definition after_except :: "int \<Rightarrow> int \<Rightarrow> client \<Rightarrow> price_step \<times> client" where
  "after_except max_retries attempt s =
     (if attempt = max_retries then (Return zero_fallback, s) else (Continue, s))"

text \<open>
  The handler of lines 224 to 229, for an \<^verbatim>\<open>HTTPError\<close> whose response has the status
  \<open>status\<close> (\<open>None\<close> when it has no response). An exception of \<^verbatim>\<open>handle_429\<close> is raised
  inside the handler, so it leaves the function.
\<close>

definition except_HTTPError ::
  "nat option \<Rightarrow> int \<Rightarrow> int \<Rightarrow> client \<Rightarrow> price_step \<times> client" where
  "except_HTTPError status max_retries attempt s =
     (if status = Some 429 \<and> attempt < max_retries then
        (case limiter_handle_429 s of
           (None, s1) \<Rightarrow> (Continue, s1)
         | (Some e, s1) \<Rightarrow> (Raise e, s1))
      else after_except max_retries attempt s)"

text \<open>
  The body of the \<^verbatim>\<open>for\<close> loop, lines 194 to 234. \<^verbatim>\<open>raise_for_status\<close> raises an
  \<^verbatim>\<open>HTTPError\<close> that holds the response; every other exception of the \<^verbatim>\<open>try\<close> block,
  those of \<^verbatim>\<open>handle_429\<close> at line 200 and of the division among them, goes to
  \<^verbatim>\<open>except Exception\<close>.
\<close>

definition price_attempt ::
  "datetime_api \<Rightarrow> listing list world \<Rightarrow> string \<Rightarrow> int \<Rightarrow> int \<Rightarrow> client
     \<Rightarrow> price_step \<times> client" where
  "price_attempt dt w market_hash_name max_retries attempt s =
     (let s1 = limiter_wait w s;
          (resp, s2) = session_get w s1
      in case resp of
           Raises (HTTPError status) \<Rightarrow> except_HTTPError status max_retries attempt s2
         | Raises RequestException \<Rightarrow> after_except max_retries attempt s2
         | Response status_code body \<Rightarrow>
             if status_code = 429 then
               (case limiter_handle_429 s2 of
                  (None, s3) \<Rightarrow> (Continue, s3)
                | (Some e, s3) \<Rightarrow> after_except max_retries attempt s3)
             else if raise_for_status status_code then
               except_HTTPError (Some status_code) max_retries attempt s2
             else
               (let s3 = limiter_success s2
                in case body of
                     JSONDecodeError \<Rightarrow> after_except max_retries attempt s3
                   | Parsed listinginfo \<Rightarrow>
                       (case parse_listinginfo listinginfo of
                          Inl e \<Rightarrow> after_except max_retries attempt s3
                        | Inr result \<Rightarrow>
                            (Return result, cache_set dt market_hash_name result s3))))"

text \<open>
  \<^verbatim>\<open>for attempt in range(max_retries + 1)\<close>, from the iteration \<open>attempt\<close> on. The result is
  an exception that leaves the function (\<open>Inl\<close>) or its value (\<open>Inr\<close>). When the range is
  used up the function ends without a \<^verbatim>\<open>return\<close>: its value is Python's \<^verbatim>\<open>None\<close>, here
  \<open>Inr None\<close>.
\<close>

function get_price_loop ::
  "datetime_api \<Rightarrow> listing list world \<Rightarrow> string \<Rightarrow> int \<Rightarrow> int \<Rightarrow> client
     \<Rightarrow> (py_error + price_record option) \<times> client" where
  "get_price_loop dt w market_hash_name max_retries attempt s =
     (if attempt \<le> max_retries then
        (let (e, s1) = price_attempt dt w market_hash_name max_retries attempt s
         in case e of
              Return result \<Rightarrow> (Inr (Some result), s1)
            | Raise x \<Rightarrow> (Inl x, s1)
            | Continue \<Rightarrow> get_price_loop dt w market_hash_name max_retries (attempt + 1) s1)
      else (Inr None, s))"
  by pat_completeness auto
termination
  by (relation
      "measure (\<lambda>(dt, w, n, max_retries, attempt, s). nat (max_retries + 1 - attempt))") auto

text \<open>
  \<^verbatim>\<open>get_price(self, market_hash_name, currency=3, max_retries=5)\<close>. The lookup in the
  cache is outside the \<^verbatim>\<open>try\<close>: an exception of it leaves the function.
\<close>

definition get_price ::
  "datetime_api \<Rightarrow> listing list world \<Rightarrow> string \<Rightarrow> int \<Rightarrow> client
     \<Rightarrow> (py_error + price_record option) \<times> client" where
  "get_price dt w market_hash_name max_retries s =
     (case PriceCache_get dt (api_cache s) (clock s) market_hash_name of
        Inl e \<Rightarrow> (Inl e, s)
      | Inr (Some cache_result) \<Rightarrow> (Inr (Some cache_result), s)
      | Inr None \<Rightarrow> get_price_loop dt w market_hash_name max_retries 0 s)"

section \<open>SteamMarketAPI.fetch_csgo_inventory\<close>

record asset =
  asset_classid :: string
  asset_instanceid :: string
  assetid :: string

record description =
  classid :: string
  instanceid :: string
  market_hash_name :: string

text \<open>
  A response of the inventory endpoint that is a non-empty JSON object. Each key the
  code reads may be missing; \<^verbatim>\<open>more_items\<close> is the number the service sends.
\<close>

record page =
  page_assets :: "asset list option"
  page_descriptions :: "description list option"
  page_more_items :: "int option"
  page_last_assetid :: "string option"

text \<open>The dictionary that \<^verbatim>\<open>fetch_csgo_inventory\<close> returns.\<close>

record inventory =
  assets :: "asset list"
  descriptions :: "description list"

text \<open>
  The payload of the inventory endpoint is a \<open>page option\<close>: \<open>None\<close> is a JSON value that
  Python takes for false (\<^verbatim>\<open>{}\<close>, \<^verbatim>\<open>null\<close>), the case of \<^verbatim>\<open>if not data\<close>. A payload
  that is true and not an object (an array, a number) is not a value of this type.

  A local variable is unbound until its first assignment; reading it then raises
  \<^verbatim>\<open>UnboundLocalError\<close>.
\<close>

datatype 'a local_var = Unbound | Bound 'a

definition inventory_max_retries :: nat where
  "inventory_max_retries = 5"

text \<open>
  One iteration of the inner \<^verbatim>\<open>while\<close> ends in \<^verbatim>\<open>break\<close> with the parsed data, in the
  \<^verbatim>\<open>return\<close> of line 150, at the end of its body or a \<^verbatim>\<open>continue\<close>, with the new
  value of \<^verbatim>\<open>retry_count\<close>, or in an exception that line 146 does not catch.
\<close>

datatype 'p attempt_end = Break 'p | ReturnAccumulated | NextAttempt nat | Uncaught py_error

text \<open>The handler of lines 146 to 154.\<close>

definition inventory_except :: "nat \<Rightarrow> client \<Rightarrow> 'p attempt_end \<times> client" where
  "inventory_except retry_count s =
     (let retry_count1 = retry_count + 1
      in if retry_count1 \<ge> inventory_max_retries then (ReturnAccumulated, s)
         else (let delay = min (2 ^ retry_count1) 60
               in (NextAttempt retry_count1, time_sleep (real delay) s)))"

text \<open>The body of the inner \<^verbatim>\<open>while\<close>, lines 132 to 154.\<close>

definition inventory_attempt ::
  "page option world \<Rightarrow> nat \<Rightarrow> client \<Rightarrow> page option attempt_end \<times> client" where
  "inventory_attempt w retry_count s =
     (let (resp, s1) = session_get w s
      in case resp of
           Raises e \<Rightarrow> inventory_except retry_count s1
         | Response status_code body \<Rightarrow>
             if status_code = 429 then
               (case limiter_handle_429 s1 of
                  (None, s2) \<Rightarrow> (NextAttempt (retry_count + 1), s2)
                | (Some e, s2) \<Rightarrow> (Uncaught e, s2))
             else if raise_for_status status_code then inventory_except retry_count s1
             else
               (let s2 = limiter_success s1
                in case body of
                     JSONDecodeError \<Rightarrow> inventory_except retry_count s2
                   | Parsed d \<Rightarrow> (Break d, s2)))"

text \<open>
  The inner \<^verbatim>\<open>while retry_count < max_retries\<close>. It ends by \<^verbatim>\<open>break\<close>, by the \<^verbatim>\<open>return\<close>
  of line 150, because its condition is false, or by an exception that leaves the
  function.
\<close>

datatype 'p retry_end = Broke 'p | Returned | ConditionFalse | Propagated py_error

function retry_loop ::
  "page option world \<Rightarrow> nat \<Rightarrow> client \<Rightarrow> page option retry_end \<times> client" where
  "retry_loop w retry_count s =
     (if retry_count < inventory_max_retries then
        (let (e, s1) = inventory_attempt w retry_count s
         in case e of
              Break d \<Rightarrow> (Broke d, s1)
            | ReturnAccumulated \<Rightarrow> (Returned, s1)
            | Uncaught x \<Rightarrow> (Propagated x, s1)
            | NextAttempt retry_count1 \<Rightarrow> retry_loop w retry_count1 s1)
      else (ConditionFalse, s))"
  by pat_completeness auto
termination
  apply (relation "measure (\<lambda>(w, retry_count, s). inventory_max_retries - retry_count)")
   apply simp
  apply (auto simp: inventory_attempt_def inventory_except_def session_get_def Let_def
      split: outcome.splits json.splits if_splits prod.splits option.splits)
  done

definition truthy :: "string option \<Rightarrow> bool" where
  "truthy v = (case v of None \<Rightarrow> False | Some x \<Rightarrow> x \<noteq> [])"

text \<open>
  The outer \<^verbatim>\<open>while more_items\<close>, with the local variables of the function as
  arguments. A service that always reports more items keeps the loop running for ever,
  so the recursion has fuel, one unit for each page: \<open>None\<close> says that the fuel was used
  up, \<open>Some\<close> holds what the function did, an exception that leaves it (\<open>Inl\<close>) or its
  value (\<open>Inr\<close>). The cursor \<^verbatim>\<open>last_assetid\<close> only goes into the parameters of the next
  request, and the outcomes of the world are indexed by the requests in their order.
\<close>

fun fetch_loop ::
  "nat \<Rightarrow> page option world \<Rightarrow> asset list \<Rightarrow> description list \<Rightarrow> string option \<Rightarrow> bool
     \<Rightarrow> bool \<Rightarrow> page option local_var \<Rightarrow> client \<Rightarrow> ((py_error + inventory) \<times> client) option"
  where
  "fetch_loop fuel w all_assets descs last_assetid more_items first dat s =
     (if \<not> more_items then Some (Inr \<lparr>assets = all_assets, descriptions = descs\<rparr>, s)
      else case fuel of
        0 \<Rightarrow> None
      | Suc fuel1 \<Rightarrow>
          (let s1 = limiter_wait w s;
               (e, s2) = retry_loop w 0 s1
           in case e of
                Returned \<Rightarrow> Some (Inr \<lparr>assets = all_assets, descriptions = descs\<rparr>, s2)
              | Propagated x \<Rightarrow> Some (Inl x, s2)
              | _ \<Rightarrow>
                  (case (case e of Broke d \<Rightarrow> Bound d | _ \<Rightarrow> dat) of
                     Unbound \<Rightarrow> Some (Inl UnboundLocalError, s2)
                   | Bound None \<Rightarrow>
                       Some (Inr \<lparr>assets = all_assets, descriptions = descs\<rparr>, s2)
                   | Bound (Some p) \<Rightarrow>
                       (let descs1 = (if first then get_or (page_descriptions p) [] else descs);
                            current_assets = get_or (page_assets p) [];
                            all_assets1 = all_assets @ current_assets;
                            more_items1 = (get_or (page_more_items p) 0 = 1);
                            last_assetid1 = page_last_assetid p
                        in if \<not> more_items1 \<or> \<not> truthy last_assetid1
                           then Some (Inr \<lparr>assets = all_assets1, descriptions = descs1\<rparr>, s2)
                           else fetch_loop fuel1 w all_assets1 descs1 last_assetid1
                                  more_items1 False (Bound (Some p)) s2))))"

text \<open>\<^verbatim>\<open>fetch_csgo_inventory(self, count=100, lang='english')\<close>\<close>

definition fetch_csgo_inventory ::
  "nat \<Rightarrow> page option world \<Rightarrow> client \<Rightarrow> ((py_error + inventory) \<times> client) option" where
  "fetch_csgo_inventory fuel w s = fetch_loop fuel w [] [] None True True Unbound s"

section \<open>Successful responses and example inputs\<close>

text \<open>
  The payload of a response that both client functions accept: its status is neither 429
  nor one \<^verbatim>\<open>raise_for_status\<close> raises for, and \<^verbatim>\<open>json()\<close> parses. Every other outcome
  is a failed attempt; in \<^verbatim>\<open>get_price\<close> an accepted response is one too when the
  division of line 217 raises.
\<close>

definition delivered :: "'b outcome \<Rightarrow> 'b option" where
  "delivered resp =
     (case resp of
        Raises e \<Rightarrow> None
      | Response status_code body \<Rightarrow>
          (case body of
             JSONDecodeError \<Rightarrow> None
           | Parsed d \<Rightarrow>
               if status_code = 429 \<or> raise_for_status status_code then None else Some d))"

text \<open>
  \<^verbatim>\<open>SteamMarketAPI(steam_id, cache_duration_hours)\<close> at the time \<open>now\<close>, for a whole
  number of hours, with the dictionary \<open>loaded\<close> read from the cache file.
\<close>

definition SteamMarketAPI :: "int \<Rightarrow> (string \<Rightarrow> cache_entry option) \<Rightarrow> real \<Rightarrow> client" where
  "SteamMarketAPI cache_duration_hours loaded now =
     \<lparr>limiter = RateLimiter 1 60 (1/5),
      api_cache = \<lparr>cache_duration = of_int cache_duration_hours * 3600, cache = loaded\<rparr>,
      clock = now, requests = 0, draws = 0, slept = []\<rparr>"

text \<open>
  The \<^verbatim>\<open>datetime\<close> module of a machine whose local time is \<open>before\<close> seconds ahead of UTC
  until the time \<open>change\<close> and \<open>after\<close> seconds from then on: \<^verbatim>\<open>datetime.now()\<close> cuts the
  time to a whole microsecond, \<^verbatim>\<open>datetime.fromtimestamp\<close> rounds to one. The times of
  the examples are whole eighths of a second, which a float holds exactly.
\<close>

definition floor_us :: "real \<Rightarrow> real" where
  "floor_us t = of_int \<lfloor>t * 1000000\<rfloor> / 1000000"

definition round_us :: "real \<Rightarrow> real" where
  "round_us t = of_int (round_half_even (t * 1000000)) / 1000000"

definition utc_offset :: "real \<Rightarrow> real \<Rightarrow> real \<Rightarrow> real \<Rightarrow> real" where
  "utc_offset change before after t = (if t < change then before else after)"

definition zone_change :: "real \<Rightarrow> real \<Rightarrow> real \<Rightarrow> datetime_api" where
  "zone_change change before after =
     \<lparr>local_now = (\<lambda>t. floor_us t + utc_offset change before after (floor_us t)),
      now_timestamp = floor_us,
      fromtimestamp = (\<lambda>ts. Inr (round_us ts + utc_offset change before after (round_us ts)))\<rparr>"

text \<open>A machine on UTC.\<close>

definition utc :: datetime_api where
  "utc = zone_change 0 0 0"

text \<open>
  Central Europe around the end of summer time on 2023-10-29 at 01:00 UTC
  (1698541200), and around its start on 2023-03-26 at 01:00 UTC (1679792400).
\<close>

definition summer_time_ends :: datetime_api where
  "summer_time_ends = zone_change 1698541200 7200 3600"

definition summer_time_starts :: datetime_api where
  "summer_time_starts = zone_change 1679792400 3600 7200"

text \<open>Worlds for the examples: every request takes an eighth of a second.\<close>

definition always_429 :: "'b world" where
  "always_429 =
     \<lparr>net = (\<lambda>i. Response 429 JSONDecodeError), lat = (\<lambda>i. 1/8), rnd = (\<lambda>i. 1/2)\<rparr>"

definition always_HTTPError_429 :: "'b world" where
  "always_HTTPError_429 =
     \<lparr>net = (\<lambda>i. Raises (HTTPError (Some 429))), lat = (\<lambda>i. 1/8), rnd = (\<lambda>i. 1/2)\<rparr>"

definition always_down :: "'b world" where
  "always_down = \<lparr>net = (\<lambda>i. Raises RequestException), lat = (\<lambda>i. 1/8), rnd = (\<lambda>i. 1/2)\<rparr>"

definition listing_1050_50 :: listing where
  "listing_1050_50 =
     \<lparr>converted_price = Some 1050, converted_fee = Some 50, listing_quantity = Some 3\<rparr>"

definition always_listing :: "listing list world" where
  "always_listing =
     \<lparr>net = (\<lambda>i. Response 200 (Parsed [listing_1050_50])), lat = (\<lambda>i. 1/8), rnd = (\<lambda>i. 1/2)\<rparr>"

text \<open>A listing whose price in cents is \<open>100 * 2 ^ 1024\<close>, a JSON integer of 311 digits.\<close>

definition always_huge_listing :: "listing list world" where
  "always_huge_listing =
     \<lparr>net = (\<lambda>i. Response 200
                   (Parsed [\<lparr>converted_price = Some (100 * 2 ^ 1024), converted_fee = Some 0,
                             listing_quantity = Some 1\<rparr>])),
      lat = (\<lambda>i. 1/8), rnd = (\<lambda>i. 1/2)\<rparr>"


definition always_malformed :: "'b world" where
  "always_malformed =
     \<lparr>net = (\<lambda>i. Response 200 JSONDecodeError), lat = (\<lambda>i. 1/8), rnd = (\<lambda>i. 1/2)\<rparr>"

text \<open>
  A page asks for the next one when \<^verbatim>\<open>more_items\<close> is 1 and the cursor is a string that
  is not empty: the negation of the test of line 171.
\<close>

definition continues :: "page \<Rightarrow> bool" where
  "continues p = (get_or (page_more_items p) 0 = 1 \<and> truthy (page_last_assetid p))"

text \<open>
  The requests from number \<open>n\<close> on are answered by the pages of the list, in this order:
  each page comes with the number \<open>k\<close> of failed attempts before it, fewer than the
  slots of the retry loop.
\<close>

fun served :: "page option world \<Rightarrow> nat \<Rightarrow> (nat \<times> page) list \<Rightarrow> bool" where
  "served w n [] = True"
| "served w n ((k, p) # rest) =
     (k < inventory_max_retries
      \<and> (\<forall>i<k. delivered (net w (n + i)) = None)
      \<and> delivered (net w (n + k)) = Some (Some p)
      \<and> served w (n + k + 1) rest)"

definition asset_1 :: asset where
  "asset_1 = \<lparr>asset_classid = ''310776560'', asset_instanceid = ''0'', assetid = ''a1''\<rparr>"

definition asset_2 :: asset where
  "asset_2 = \<lparr>asset_classid = ''310776560'', asset_instanceid = ''0'', assetid = ''a2''\<rparr>"

definition description_1 :: description where
  "description_1 =
     \<lparr>classid = ''310776560'', instanceid = ''0'', market_hash_name = ''AK-47''\<rparr>"

definition page_1 :: page where
  "page_1 =
     \<lparr>page_assets = Some [asset_1], page_descriptions = Some [description_1],
      page_more_items = Some 1, page_last_assetid = Some ''a1''\<rparr>"

definition page_2 :: page where
  "page_2 =
     \<lparr>page_assets = Some [asset_2], page_descriptions = Some [description_1],
      page_more_items = None, page_last_assetid = None\<rparr>"

definition two_pages :: "page option world" where
  "two_pages =
     \<lparr>net = (\<lambda>i. if i = 0 then Response 429 JSONDecodeError
                 else if i = 1 then Response 200 (Parsed (Some page_1))
                 else if i = 2 then Raises RequestException
                 else if i = 3 then Response 500 JSONDecodeError
                 else Response 200 (Parsed (Some page_2))),
      lat = (\<lambda>i. 1/8), rnd = (\<lambda>i. 1/2)\<rparr>"

definition five_429_then_page :: "page option world" where
  "five_429_then_page =
     \<lparr>net = (\<lambda>i. if i < 5 then Response 429 JSONDecodeError
                 else Response 200 (Parsed (Some page_2))),
      lat = (\<lambda>i. 1/8), rnd = (\<lambda>i. 1/2)\<rparr>"

definition page_then_429 :: "page option world" where
  "page_then_429 =
     \<lparr>net = (\<lambda>i. if i = 0 then Response 200 (Parsed (Some page_1))
                 else if i < 6 then Response 429 JSONDecodeError
                 else Response 200 (Parsed (Some page_2))),
      lat = (\<lambda>i. 1/8), rnd = (\<lambda>i. 1/2)\<rparr>"

section \<open>Lemmas about floats\<close>

lemma floor_log2_eq:
  assumes "0 < x" and "2 powr of_int e \<le> x" and "x < 2 powr (of_int e + 1)"
  shows "\<lfloor>log 2 x\<rfloor> = e"
proof (rule floor_unique)
  show "of_int e \<le> log 2 x" using assms by (simp add: le_log_iff)
  show "log 2 x < of_int e + 1" using assms by (simp add: log_less_iff)
qed

lemma truediv_1100_100: "truediv 1100 100 = Inr 11"
proof -
  have "\<lfloor>log 2 (11::real)\<rfloor> = 3"
    by (rule floor_log2_eq) simp_all
  then have "round_binary64 11 = 11"
    by (simp add: round_binary64_def round_half_even_def Let_def powr_neg_numeral)
  then show ?thesis
    by (simp add: truediv_def Let_def)
qed

lemma truediv_3_100: "truediv 3 100 = Inr (1080863910568919 / 2 ^ 55)"
proof -
  have "\<lfloor>log 2 (3 / 100 :: real)\<rfloor> = - 6"
    by (rule floor_log2_eq) (simp_all add: powr_neg_numeral)
  then have "round_binary64 (3 / 100) = 1080863910568919 / 2 ^ 55"
    by (simp add: round_binary64_def round_half_even_def Let_def powr_neg_numeral)
  then show ?thesis
    by (simp add: truediv_def Let_def)
qed

lemma truediv_overflow: "truediv (100 * 2 ^ 1024) 100 = Inl OverflowError"
proof -
  have "\<lfloor>log 2 (2 ^ 1024 :: real)\<rfloor> = 1024"
    by (rule floor_log2_eq) simp_all
  then have "round_binary64 (2 ^ 1024) = 2 ^ 1024"
    by (simp add: round_binary64_def round_half_even_def Let_def)
  then show ?thesis
    by (simp add: truediv_def Let_def)
qed

section \<open>Theorems about the RateLimiter\<close>

lemma handle_429_limiter:
  "snd (handle_429 l) = l\<lparr>consecutive_429 := consecutive_429 l + 1\<rparr>"
  by (simp add: handle_429_def Let_def)

lemma handle_429_outcome:
  "fst (handle_429 l) =
     (if 1023 \<le> consecutive_429 l then Inl OverflowError
      else if min (base_delay l * 2 ^ (consecutive_429 l + 1)) (max_delay l) < 0
           then Inl ValueError
           else Inr (min (base_delay l * 2 ^ (consecutive_429 l + 1)) (max_delay l)))"
  by (simp add: handle_429_def Let_def)

lemma handle_429_run_limiter:
  "snd (handle_429_run n l) = l\<lparr>consecutive_429 := consecutive_429 l + n\<rparr>"
  by (induction n arbitrary: l) (simp_all add: split_def Let_def handle_429_limiter)

lemma handle_429_run_outcomes:
  "fst (handle_429_run n l) =
     map (\<lambda>k. fst (handle_429 (l\<lparr>consecutive_429 := consecutive_429 l + k\<rparr>))) [0..<n]"
proof (induction n arbitrary: l)
  case 0
  show ?case by simp
next
  case (Suc n)
  let ?l1 = "snd (handle_429 l)"
  have "fst (handle_429_run (Suc n) l) = fst (handle_429 l) # fst (handle_429_run n ?l1)"
    by (simp add: split_def Let_def)
  also have "\<dots> = fst (handle_429 (l\<lparr>consecutive_429 := consecutive_429 l + 0\<rparr>))
      # map (\<lambda>k. fst (handle_429 (l\<lparr>consecutive_429 := consecutive_429 l + Suc k\<rparr>))) [0..<n]"
    by (simp add: Suc.IH handle_429_limiter)
  also have "\<dots> = map (\<lambda>k. fst (handle_429 (l\<lparr>consecutive_429 := consecutive_429 l + k\<rparr>)))
      [0..<Suc n]"
    by (simp only: upt_conv_Cons [of 0 "Suc n"] map_Suc_upt [symmetric] list.map)
      (simp add: comp_def)
  finally show ?case .
qed

text \<open>
  Up to the 1023rd rejection in a row, with a base delay and a cap that are not negative,
  the delays double up to the cap: the \<open>k\<close>-th call sleeps
  \<open>min (base_delay * 2 ^ k) max_delay\<close>, the delays never decrease and never exceed
  \<open>max_delay\<close>, and a \<^verbatim>\<open>success\<close> brings the next one back to \<open>min (base_delay * 2) max_delay\<close>.
\<close>

lemma handle_429_backoff_below_overflow:
  fixes l :: rate_limiter and n :: nat
  defines "ds \<equiv> map (\<lambda>k. min (base_delay l * 2 ^ Suc k) (max_delay l)) [0..<n]"
  assumes n: "n \<le> 1023" and b: "0 \<le> base_delay l" and m: "0 \<le> max_delay l"
  shows "fst (handle_429_run n (success l)) = map Inr ds"
    and "sorted ds"
    and "\<forall>d \<in> set ds. d \<le> max_delay l"
    and "fst (handle_429 (success (snd (handle_429_run n l))))
      = Inr (min (base_delay l * 2) (max_delay l))"
proof -
  have nonneg: "\<not> min (base_delay l * 2 ^ Suc k) (max_delay l) < 0" for k
    using b m by (simp add: not_less)
  have "fst (handle_429 ((success l)\<lparr>consecutive_429 := consecutive_429 (success l) + k\<rparr>))
      = Inr (min (base_delay l * 2 ^ Suc k) (max_delay l))" if "k < n" for k
    using that n nonneg [of k] by (simp add: handle_429_outcome success_def del: power_Suc)
  then show "fst (handle_429_run n (success l)) = map Inr ds"
    by (simp add: handle_429_run_outcomes ds_def)
  have "min (base_delay l * 2 ^ Suc i) (max_delay l)
      \<le> min (base_delay l * 2 ^ Suc j) (max_delay l)" if "i \<le> j" for i j :: nat
  proof -
    from that have "(2::real) ^ Suc i \<le> 2 ^ Suc j" by (simp add: power_increasing)
    then have "base_delay l * 2 ^ Suc i \<le> base_delay l * 2 ^ Suc j"
      using b by (rule mult_left_mono)
    then show ?thesis by (simp add: min_le_iff_disj)
  qed
  then show "sorted ds"
    by (simp add: ds_def sorted_iff_nth_mono)
  show "\<forall>d \<in> set ds. d \<le> max_delay l" by (auto simp: ds_def)
  show "fst (handle_429 (success (snd (handle_429_run n l))))
      = Inr (min (base_delay l * 2) (max_delay l))"
    using nonneg [of 0] by (simp add: handle_429_run_limiter handle_429_outcome success_def)
qed

text \<open>
  Claim C7 fails on the code at the 1024th rejection in a row. The claim gives that call
  the delay \<open>min (base_delay * 2 ^ 1024) max_delay\<close>, the cap of 60 seconds for the limiter
  of the client; line 45 multiplies the float \<^verbatim>\<open>base_delay\<close> by the integer \<open>2 ^ 1024\<close>,
  which no float holds, and the call raises \<^verbatim>\<open>OverflowError\<close> before it sleeps. The
  1023rd call still sleeps the cap.
\<close>

theorem handle_429_overflow:
  "fst (handle_429_run 1024 (success (RateLimiter 1 60 (1/5)))) ! (1024 - 1) = Inl OverflowError
   \<and> fst (handle_429_run 1024 (success (RateLimiter 1 60 (1/5)))) ! (1023 - 1) = Inr 60
   \<and> min (base_delay (RateLimiter 1 60 (1/5)) * 2 ^ 1024) (max_delay (RateLimiter 1 60 (1/5)))
       = 60"
proof -
  have big: "(60::real) \<le> 2 ^ 1023" by simp
  show ?thesis
    using big
    by (simp add: handle_429_run_outcomes handle_429_outcome success_def RateLimiter_def
        min_def)
qed

section \<open>Theorems about the PriceCache\<close>

text \<open>
  On a machine where \<^verbatim>\<open>fromtimestamp\<close> gives back the local datetime that \<^verbatim>\<open>now\<close> had
  when the timestamp was taken, a record written at the time \<open>t\<close> with a timestamp other
  than zero is returned at the time \<open>t'\<close> exactly when the local datetimes of the two
  times are no further apart than the duration. The entry stays in the dictionary:
  \<^verbatim>\<open>get\<close> only reads.
\<close>

lemma PriceCache_get_after_set:
  assumes "fromtimestamp dt (now_timestamp dt t) = Inr (local_now dt t)"
    and "now_timestamp dt t \<noteq> 0"
  shows "PriceCache_get dt (PriceCache_set dt c t k v) t' k
      = (if local_now dt t' - local_now dt t > cache_duration c then Inr None else Inr (Some v))"
    and "cache (PriceCache_set dt c t k v) k
      = Some \<lparr>data = Some v, timestamp = Some (now_timestamp dt t)\<rparr>"
  using assms by (simp_all add: PriceCache_get_def PriceCache_set_def)


lemma summer_time_ends_values:
  "now_timestamp summer_time_ends 1698535800 = 1698535800"
  "fromtimestamp summer_time_ends 1698535800 = Inr (1698535800 + 7200)"
  "local_now summer_time_ends 1698624000 = 1698627600"
  by (simp_all add: summer_time_ends_def zone_change_def utc_offset_def floor_us_def
      round_us_def round_half_even_def Let_def)

lemma summer_time_starts_values:
  "now_timestamp summer_time_starts 1679788800 = 1679788800"
  "fromtimestamp summer_time_starts 1679788800 = Inr (1679788800 + 3600)"
  "local_now summer_time_starts 1679873400 = 1679880600"
  by (simp_all add: summer_time_starts_def zone_change_def utc_offset_def floor_us_def
      round_us_def round_half_even_def Let_def)

text \<open>
  Claim C4 fails on the code when the offset of local time from UTC changes between the
  write and the read: lines 87 and 88 subtract two naive local datetimes, not two
  times. In Central Europe, with a duration of 24 hours, a record written at
  2023-10-29 01:30 local (1698535800), before the end of summer time, is still returned
  24 hours and 30 minutes later, because the local clocks are then only 23 hours and 30
  minutes further; and a record written at 2023-03-26 01:00 local (1679788800), before
  the start of summer time, is gone 23 hours and 30 minutes later.
\<close>

theorem PriceCache_get_across_zone_change:
  "(1698535800 + 88200) - 1698535800 > cache_duration \<lparr>cache_duration = 86400, cache = Map.empty\<rparr>
   \<and> PriceCache_get summer_time_ends
        (PriceCache_set summer_time_ends \<lparr>cache_duration = 86400, cache = Map.empty\<rparr>
           1698535800 ''AK-47'' \<lparr>price = 25 / 2, quantity = 3\<rparr>)
        (1698535800 + 88200) ''AK-47''
      = Inr (Some \<lparr>price = 25 / 2, quantity = 3\<rparr>)
   \<and> (1679788800 + 84600) - 1679788800
       \<le> cache_duration \<lparr>cache_duration = 86400, cache = Map.empty\<rparr>
   \<and> PriceCache_get summer_time_starts
        (PriceCache_set summer_time_starts \<lparr>cache_duration = 86400, cache = Map.empty\<rparr>
           1679788800 ''AK-47'' \<lparr>price = 25 / 2, quantity = 3\<rparr>)
        (1679788800 + 84600) ''AK-47''
      = Inr None"
  by (simp add: PriceCache_get_def PriceCache_set_def summer_time_ends_values
      summer_time_starts_values)

section \<open>Theorems about the pacing of requests\<close>




section \<open>What each step leaves unchanged\<close>

declare get_price_loop.simps [simp del]
declare retry_loop.simps [simp del]
declare fetch_loop.simps [simp del]

lemma time_sleep_frame [simp]:
  "api_cache (time_sleep d s) = api_cache s" "requests (time_sleep d s) = requests s"
  "limiter (time_sleep d s) = limiter s" "draws (time_sleep d s) = draws s"
  by (simp_all add: time_sleep_def)

lemma limiter_wait_frame [simp]:
  "api_cache (limiter_wait w s) = api_cache s" "requests (limiter_wait w s) = requests s"
  by (simp_all add: limiter_wait_def split_def Let_def split: option.splits)

lemma limiter_handle_429_frame [simp]:
  "api_cache (snd (limiter_handle_429 s)) = api_cache s"
  "requests (snd (limiter_handle_429 s)) = requests s"
  by (simp_all add: limiter_handle_429_def split_def Let_def split: sum.splits)

lemma limiter_success_frame [simp]:
  "api_cache (limiter_success s) = api_cache s" "requests (limiter_success s) = requests s"
  "clock (limiter_success s) = clock s"
  by (simp_all add: limiter_success_def)

lemma session_get_frame [simp]:
  "fst (session_get w s) = net w (requests s)"
  "api_cache (snd (session_get w s)) = api_cache s"
  "requests (snd (session_get w s)) = Suc (requests s)"
  by (simp_all add: session_get_def)

lemma cache_set_frame [simp]:
  "requests (cache_set dt n d s) = requests s" "clock (cache_set dt n d s) = clock s"
  "api_cache (cache_set dt n d s) = PriceCache_set dt (api_cache s) (clock s) n d"
  by (simp_all add: cache_set_def)

lemma delivered_Some:
  "delivered resp = Some d \<longleftrightarrow>
     (\<exists>st. resp = Response st (Parsed d) \<and> st \<noteq> 429 \<and> \<not> raise_for_status st)"
  by (auto simp: delivered_def split: outcome.splits json.splits)

lemma price_attempt_delivered:
  assumes "delivered (net w (requests s)) = Some li" and "parse_listinginfo li = Inr result"
  shows "price_attempt dt w name mr attempt s =
    (Return result,
     cache_set dt name result (limiter_success (snd (session_get w (limiter_wait w s)))))"
proof -
  from assms obtain st where "net w (requests s) = Response st (Parsed li)" "st \<noteq> 429"
    "\<not> raise_for_status st" by (auto simp: delivered_Some)
  with assms(2) show ?thesis
    by (simp add: price_attempt_def split_def Let_def)
qed

text \<open>
  A response that parses but whose price is too large for a float: the division raises
  inside the \<^verbatim>\<open>try\<close> and the attempt ends as a failed one.
\<close>

lemma price_attempt_unparsed:
  assumes "delivered (net w (requests s)) = Some li" and "parse_listinginfo li = Inl e"
  shows "price_attempt dt w name mr attempt s =
    after_except mr attempt (limiter_success (snd (session_get w (limiter_wait w s))))"
proof -
  from assms obtain st where "net w (requests s) = Response st (Parsed li)" "st \<noteq> 429"
    "\<not> raise_for_status st" by (auto simp: delivered_Some)
  with assms(2) show ?thesis
    by (simp add: price_attempt_def split_def Let_def)
qed

lemma after_except_frame:
  "api_cache (snd (after_except mr attempt s)) = api_cache s
   \<and> requests (snd (after_except mr attempt s)) = requests s
   \<and> (fst (after_except mr attempt s) = Continue
      \<or> fst (after_except mr attempt s) = Return zero_fallback \<and> attempt = mr)"
  by (simp add: after_except_def)

lemma except_HTTPError_frame:
  "api_cache (snd (except_HTTPError status mr attempt s)) = api_cache s
   \<and> requests (snd (except_HTTPError status mr attempt s)) = requests s
   \<and> (fst (except_HTTPError status mr attempt s) = Continue
      \<or> fst (except_HTTPError status mr attempt s) = Return zero_fallback \<and> attempt = mr
      \<or> (\<exists>e. fst (except_HTTPError status mr attempt s) = Raise e))"
proof (cases "status = Some 429 \<and> attempt < mr")
  case True
  obtain r s1 where h: "limiter_handle_429 s = (r, s1)" by (cases "limiter_handle_429 s")
  have "api_cache s1 = api_cache s" "requests s1 = requests s"
    using limiter_handle_429_frame [of s] by (simp_all add: h)
  with True h show ?thesis
    by (cases r) (simp_all add: except_HTTPError_def)
next
  case False
  then show ?thesis
    using after_except_frame [of mr attempt s] by (auto simp: except_HTTPError_def)
qed

lemma price_attempt_failed:
  assumes "\<forall>li result. delivered (net w (requests s)) = Some li \<longrightarrow> parse_listinginfo li \<noteq> Inr result"
  shows "api_cache (snd (price_attempt dt w name mr attempt s)) = api_cache s
    \<and> requests (snd (price_attempt dt w name mr attempt s)) = Suc (requests s)
    \<and> (fst (price_attempt dt w name mr attempt s) = Continue
       \<or> fst (price_attempt dt w name mr attempt s) = Return zero_fallback \<and> attempt = mr
       \<or> (\<exists>e. fst (price_attempt dt w name mr attempt s) = Raise e))"
proof -
  let ?s2 = "snd (session_get w (limiter_wait w s))"
  let ?s3 = "limiter_success ?s2"
  have s2: "api_cache ?s2 = api_cache s" "requests ?s2 = Suc (requests s)" by simp_all
  obtain r s4 where h: "limiter_handle_429 ?s2 = (r, s4)" by (cases "limiter_handle_429 ?s2")
  have s4: "api_cache s4 = api_cache s" "requests s4 = Suc (requests s)"
    using limiter_handle_429_frame [of ?s2] by (simp_all add: h)
  note e1 = except_HTTPError_frame [of _ mr attempt ?s2, unfolded s2]
  note a2 = after_except_frame [of mr attempt ?s2, unfolded s2]
  note a3 = after_except_frame [of mr attempt ?s3, simplified]
  note a4 = after_except_frame [of mr attempt s4, unfolded s4]
  let ?a = "price_attempt dt w name mr attempt s"
  show ?thesis
  proof (cases "net w (requests s)")
    case (Raises x)
    show ?thesis
    proof (cases x)
      case (HTTPError status)
      with Raises have "?a = except_HTTPError status mr attempt ?s2"
        by (simp add: price_attempt_def split_def Let_def)
      then show ?thesis using e1 [of status] by simp
    next
      case RequestException
      with Raises have "?a = after_except mr attempt ?s2"
        by (simp add: price_attempt_def split_def Let_def)
      then show ?thesis using a2 by auto
    qed
  next
    case (Response st body)
    show ?thesis
    proof (cases "st = 429")
      case True
      show ?thesis
      proof (cases r)
        case None
        with True Response h have "?a = (Continue, s4)"
          by (simp add: price_attempt_def split_def Let_def)
        then show ?thesis by (simp add: s4)
      next
        case (Some e)
        with True Response h have "?a = after_except mr attempt s4"
          by (simp add: price_attempt_def split_def Let_def)
        then show ?thesis using a4 by auto
      qed
    next
      case n429: False
      show ?thesis
      proof (cases "raise_for_status st")
        case True
        with Response n429 have "?a = except_HTTPError (Some st) mr attempt ?s2"
          by (simp add: price_attempt_def split_def Let_def)
        then show ?thesis using e1 [of "Some st"] by simp
      next
        case ok: False
        have "?a = after_except mr attempt ?s3"
        proof (cases body)
          case JSONDecodeError
          with Response n429 ok show ?thesis
            by (simp add: price_attempt_def split_def Let_def)
        next
          case (Parsed li)
          with Response n429 ok have "delivered (net w (requests s)) = Some li"
            by (simp add: delivered_def)
          with assms obtain e where "parse_listinginfo li = Inl e"
            by (cases "parse_listinginfo li") auto
          with Parsed Response n429 ok show ?thesis
            by (simp add: price_attempt_def split_def Let_def)
        qed
        then show ?thesis using a3 by auto
      qed
    qed
  qed
qed

lemma price_attempt_requests [simp]:
  "requests (snd (price_attempt dt w name mr attempt s)) = Suc (requests s)"
proof (cases "\<exists>li result. delivered (net w (requests s)) = Some li \<and> parse_listinginfo li = Inr result")
  case True
  then show ?thesis by (auto simp: price_attempt_delivered)
next
  case False
  then show ?thesis using price_attempt_failed [of w s dt name mr attempt] by blast
qed

lemmas client_defs = SteamMarketAPI_def RateLimiter_def limiter_wait_def wait_def
  random_uniform_def limiter_handle_429_def handle_429_def limiter_success_def success_def
  session_get_def time_sleep_def raise_for_status_def cache_set_def PriceCache_set_def
  PriceCache_get_def Let_def split_def

section \<open>Lemmas about the loop of get_price\<close>

lemma get_price_loop_delivered:
  assumes "attempt \<le> mr" and "delivered (net w (requests s)) = Some li"
    and "parse_listinginfo li = Inr result"
  shows "get_price_loop dt w name mr attempt s =
    (Inr (Some result),
     cache_set dt name result (limiter_success (snd (session_get w (limiter_wait w s)))))"
  using assms(1)
  by (subst get_price_loop.simps) (simp add: price_attempt_delivered [OF assms(2,3)])



lemma parse_listing_1050_50:
  "parse_listinginfo [listing_1050_50] = Inr \<lparr>price = 11, quantity = 3\<rparr>"
  using truediv_1100_100
  by (simp add: parse_listinginfo_def listing_1050_50_def get_or_def Let_def)

section \<open>Theorems about get_price\<close>




text \<open>
  Claim C8. When an attempt of the loop is answered by a response that parses to
  \<open>listinginfo\<close>, and the record of \<open>listinginfo\<close> is \<open>result\<close>, the loop returns \<open>result\<close>
  from that attempt and the cache holds \<open>result\<close> for the name, stamped with the time of
  the write; so does \<^verbatim>\<open>get_price\<close> when the attempt is the first one after a miss. The
  record of an empty \<open>listinginfo\<close> is price 0 and quantity 0. The price of a first
  listing that has a \<^verbatim>\<open>converted_price\<close> is the float that Python's division gives for
  that price plus the fee (0 when missing) over 100: the quotient rounded to the nearest
  float, which is 11 for 1050 and 50.
\<close>

theorem get_price_success:
  assumes attempt: "attempt \<le> max_retries"
    and ok: "delivered (net w (requests s)) = Some listinginfo"
    and parsed: "parse_listinginfo listinginfo = Inr result"
  shows "(\<exists>s'. get_price_loop dt w name max_retries attempt s = (Inr (Some result), s')
            \<and> cache (api_cache s') name
                = Some \<lparr>data = Some result, timestamp = Some (now_timestamp dt (clock s'))\<rparr>
            \<and> requests s' = requests s + 1
            \<and> (attempt = 0 \<and> PriceCache_get dt (api_cache s) (clock s) name = Inr None \<longrightarrow>
                 get_price dt w name max_retries s = (Inr (Some result), s')))
    \<and> parse_listinginfo [] = Inr \<lparr>price = 0, quantity = 0\<rparr>
    \<and> (\<forall>info rest p.
          converted_price info = Some p \<longrightarrow>
          parse_listinginfo (info # rest)
            = (case truediv (p + get_or (converted_fee info) 0) 100 of
                 Inl e \<Rightarrow> Inl e
               | Inr v \<Rightarrow> Inr \<lparr>price = v, quantity = get_or (listing_quantity info) 0\<rparr>))
    \<and> truediv (1050 + 50) 100 = Inr 11"
proof -
  let ?s' = "cache_set dt name result (limiter_success (snd (session_get w (limiter_wait w s))))"
  have loop: "get_price_loop dt w name max_retries attempt s = (Inr (Some result), ?s')"
    by (rule get_price_loop_delivered [OF attempt ok parsed])
  have entry: "cache (api_cache ?s') name
      = Some \<lparr>data = Some result, timestamp = Some (now_timestamp dt (clock ?s'))\<rparr>"
    by (simp add: PriceCache_set_def)
  have req: "requests ?s' = requests s + 1" by simp
  have top: "attempt = 0 \<and> PriceCache_get dt (api_cache s) (clock s) name = Inr None \<longrightarrow>
      get_price dt w name max_retries s = (Inr (Some result), ?s')"
    using loop by (auto simp: get_price_def)
  from loop entry req top
  have run: "\<exists>s'. get_price_loop dt w name max_retries attempt s = (Inr (Some result), s')
            \<and> cache (api_cache s') name
                = Some \<lparr>data = Some result, timestamp = Some (now_timestamp dt (clock s'))\<rparr>
            \<and> requests s' = requests s + 1
            \<and> (attempt = 0 \<and> PriceCache_get dt (api_cache s) (clock s) name = Inr None \<longrightarrow>
                 get_price dt w name max_retries s = (Inr (Some result), s'))"
    by blast
  have p0: "parse_listinginfo [] = Inr \<lparr>price = 0, quantity = 0\<rparr>"
    by (simp add: parse_listinginfo_def)
  have p1: "\<forall>info rest p.
          converted_price info = Some p \<longrightarrow>
          parse_listinginfo (info # rest)
            = (case truediv (p + get_or (converted_fee info) 0) 100 of
                 Inl e \<Rightarrow> Inl e
               | Inr v \<Rightarrow> Inr \<lparr>price = v, quantity = get_or (listing_quantity info) 0\<rparr>)"
    by (simp add: parse_listinginfo_def Let_def)
  have p2: "truediv (1050 + 50) 100 = Inr 11"
    using truediv_1100_100 by simp
  from run p0 p1 p2 show ?thesis by blast
qed

theorem get_price_success_witness:
  "(0::int) \<le> 5
   \<and> delivered (net always_listing (requests (SteamMarketAPI 24 Map.empty 1700000000)))
       = Some [listing_1050_50]
   \<and> converted_price listing_1050_50 = Some 1050
   \<and> parse_listinginfo [listing_1050_50] = Inr \<lparr>price = 11, quantity = 3\<rparr>
   \<and> PriceCache_get utc (api_cache (SteamMarketAPI 24 Map.empty 1700000000))
        (clock (SteamMarketAPI 24 Map.empty 1700000000)) ''AK-47'' = Inr None
   \<and> (\<exists>s'. get_price utc always_listing ''AK-47'' 5 (SteamMarketAPI 24 Map.empty 1700000000)
              = (Inr (Some \<lparr>price = 11, quantity = 3\<rparr>), s')
          \<and> cache (api_cache s') ''AK-47''
              = Some \<lparr>data = Some \<lparr>price = 11, quantity = 3\<rparr>,
                       timestamp = Some (now_timestamp utc (clock s'))\<rparr>
          \<and> requests s' = 1)"
proof -
  let ?c = "SteamMarketAPI 24 Map.empty 1700000000"
  have attempt: "(0::int) \<le> 5" by simp
  have ok: "delivered (net always_listing (requests ?c)) = Some [listing_1050_50]"
    by (simp add: always_listing_def delivered_def raise_for_status_def)
  have cp: "converted_price listing_1050_50 = Some 1050"
    by (simp add: listing_1050_50_def)
  note parsed = parse_listing_1050_50
  have miss: "PriceCache_get utc (api_cache ?c) (clock ?c) ''AK-47'' = Inr None"
    by (simp add: SteamMarketAPI_def PriceCache_get_def)
  have req: "requests ?c = 0" by (simp add: SteamMarketAPI_def)
  from get_price_success [OF attempt ok parsed, of utc "''AK-47''"] miss
  have "\<exists>s'. get_price utc always_listing ''AK-47'' 5 ?c
              = (Inr (Some \<lparr>price = 11, quantity = 3\<rparr>), s')
          \<and> cache (api_cache s') ''AK-47''
              = Some \<lparr>data = Some \<lparr>price = 11, quantity = 3\<rparr>,
                       timestamp = Some (now_timestamp utc (clock s'))\<rparr>
          \<and> requests s' = 1"
    unfolding req by auto
  with attempt ok cp parsed miss show ?thesis by blast
qed

text \<open>
  Claim C1 fails on the code. When every one of the six attempts is answered with the
  status 429, line 201 continues after the last attempt too; the loop ends and the
  function returns Python's \<^verbatim>\<open>None\<close>, not the zero record. The handler of an
  \<^verbatim>\<open>HTTPError\<close> with the same status has the guard \<^verbatim>\<open>attempt < max_retries\<close> that line 199
  lacks, and returns the zero record.
\<close>

theorem get_price_last_429_returns_None:
  "fst (get_price utc always_429 ''AK-47'' 5 (SteamMarketAPI 24 Map.empty 1700000000)) = Inr None
   \<and> fst (get_price utc always_HTTPError_429 ''AK-47'' 5
            (SteamMarketAPI 24 Map.empty 1700000000))
       = Inr (Some \<lparr>price = 0, quantity = 0\<rparr>)"
  by (simp add: get_price_def get_price_loop.simps price_attempt_def always_429_def
      always_HTTPError_429_def except_HTTPError_def after_except_def zero_fallback_def client_defs)




text \<open>
  A price too large for a float: each of the six attempts is answered and parsed, the
  division raises, and the call returns the zero record with the cache as it was.
\<close>

lemma always_huge_listing_run:
  "fst (get_price utc always_huge_listing ''AK-47'' 5 (SteamMarketAPI 24 Map.empty 1700000000))
     = Inr (Some zero_fallback)
   \<and> api_cache (snd (get_price utc always_huge_listing ''AK-47'' 5
                (SteamMarketAPI 24 Map.empty 1700000000)))
     = api_cache (SteamMarketAPI 24 Map.empty 1700000000)
   \<and> requests (snd (get_price utc always_huge_listing ''AK-47'' 5
                (SteamMarketAPI 24 Map.empty 1700000000))) = 6"
proof -
  have "parse_listinginfo [\<lparr>converted_price = Some (100 * 2 ^ 1024), converted_fee = Some 0,
      listing_quantity = Some 1\<rparr>] = Inl OverflowError"
    using truediv_overflow by (simp add: parse_listinginfo_def get_or_def Let_def)
  then show ?thesis
    by (simp add: get_price_def get_price_loop.simps price_attempt_def always_huge_listing_def
        except_HTTPError_def after_except_def client_defs)
qed


section \<open>Theorems about fetch_csgo_inventory\<close>

text \<open>
  Claim C2, amended. In the retry loop of a page, with its five slots, a response with
  the status 429 runs the penalty backoff of the limiter and adds one to \<^verbatim>\<open>retry_count\<close>:
  it uses a slot as every other failure does, and the loop goes on with the next
  attempt only while the count is below five. (An exception of the backoff itself is
  not caught and leaves the function.) A transport error or an error status adds one
  to \<^verbatim>\<open>retry_count\<close> too; when the new count is five the function returns at once,
  otherwise it sleeps \<open>min (2 ^ retry_count) 60\<close> seconds, for the new count. A response
  that does not parse does the same after the limiter has been told of a success.
\<close>

theorem inventory_attempt_slots:
  fixes w :: "page option world" and retry_count :: nat and s :: client
  defines "s1 \<equiv> snd (session_get w s)"
  shows "(\<forall>body. net w (requests s) = Response 429 body \<longrightarrow>
            inventory_attempt w retry_count s
              = (case fst (limiter_handle_429 s1) of
                   None \<Rightarrow> (NextAttempt (retry_count + 1), snd (limiter_handle_429 s1))
                 | Some e \<Rightarrow> (Uncaught e, snd (limiter_handle_429 s1)))
            \<and> (retry_count < 5 \<and> fst (limiter_handle_429 s1) = None \<longrightarrow>
                 retry_loop w retry_count s
                   = retry_loop w (retry_count + 1) (snd (limiter_handle_429 s1))))
    \<and> (\<forall>e st body. net w (requests s) = Raises e
            \<or> net w (requests s) = Response st body \<and> st \<noteq> 429 \<and> raise_for_status st \<longrightarrow>
            inventory_attempt w retry_count s
              = (if retry_count + 1 \<ge> 5 then (ReturnAccumulated, s1)
                 else (NextAttempt (retry_count + 1),
                       time_sleep (real (min (2 ^ (retry_count + 1)) 60)) s1)))
    \<and> (\<forall>st. net w (requests s) = Response st JSONDecodeError \<and> st \<noteq> 429
              \<and> \<not> raise_for_status st \<longrightarrow>
            inventory_attempt w retry_count s
              = (if retry_count + 1 \<ge> 5 then (ReturnAccumulated, limiter_success s1)
                 else (NextAttempt (retry_count + 1),
                       time_sleep (real (min (2 ^ (retry_count + 1)) 60)) (limiter_success s1))))
    \<and> retry_loop w 5 s = (ConditionFalse, s)"
proof -
  have a: "\<forall>body. net w (requests s) = Response 429 body \<longrightarrow>
            inventory_attempt w retry_count s
              = (case fst (limiter_handle_429 s1) of
                   None \<Rightarrow> (NextAttempt (retry_count + 1), snd (limiter_handle_429 s1))
                 | Some e \<Rightarrow> (Uncaught e, snd (limiter_handle_429 s1)))
            \<and> (retry_count < 5 \<and> fst (limiter_handle_429 s1) = None \<longrightarrow>
                 retry_loop w retry_count s
                   = retry_loop w (retry_count + 1) (snd (limiter_handle_429 s1)))"
  proof (intro allI impI)
    fix body assume r: "net w (requests s) = Response 429 body"
    then have att: "inventory_attempt w retry_count s
        = (case fst (limiter_handle_429 s1) of
             None \<Rightarrow> (NextAttempt (retry_count + 1), snd (limiter_handle_429 s1))
           | Some e \<Rightarrow> (Uncaught e, snd (limiter_handle_429 s1)))"
      by (simp add: inventory_attempt_def s1_def split_def Let_def split: option.splits)
    have "retry_count < 5 \<and> fst (limiter_handle_429 s1) = None \<longrightarrow>
        retry_loop w retry_count s = retry_loop w (retry_count + 1) (snd (limiter_handle_429 s1))"
      by (subst retry_loop.simps) (simp add: att inventory_max_retries_def)
    with att show "inventory_attempt w retry_count s
              = (case fst (limiter_handle_429 s1) of
                   None \<Rightarrow> (NextAttempt (retry_count + 1), snd (limiter_handle_429 s1))
                 | Some e \<Rightarrow> (Uncaught e, snd (limiter_handle_429 s1)))
            \<and> (retry_count < 5 \<and> fst (limiter_handle_429 s1) = None \<longrightarrow>
                 retry_loop w retry_count s
                   = retry_loop w (retry_count + 1) (snd (limiter_handle_429 s1)))"
      by simp
  qed
  have b: "\<forall>e st body. net w (requests s) = Raises e
            \<or> net w (requests s) = Response st body \<and> st \<noteq> 429 \<and> raise_for_status st \<longrightarrow>
            inventory_attempt w retry_count s
              = (if retry_count + 1 \<ge> 5 then (ReturnAccumulated, s1)
                 else (NextAttempt (retry_count + 1),
                       time_sleep (real (min (2 ^ (retry_count + 1)) 60)) s1))"
    by (auto simp: inventory_attempt_def inventory_except_def inventory_max_retries_def
        s1_def split_def Let_def)
  have c: "\<forall>st. net w (requests s) = Response st JSONDecodeError \<and> st \<noteq> 429
              \<and> \<not> raise_for_status st \<longrightarrow>
            inventory_attempt w retry_count s
              = (if retry_count + 1 \<ge> 5 then (ReturnAccumulated, limiter_success s1)
                 else (NextAttempt (retry_count + 1),
                       time_sleep (real (min (2 ^ (retry_count + 1)) 60)) (limiter_success s1)))"
    by (auto simp: inventory_attempt_def inventory_except_def inventory_max_retries_def
        s1_def split_def Let_def)
  have d: "retry_loop w 5 s = (ConditionFalse, s)"
    by (subst retry_loop.simps) (simp add: inventory_max_retries_def)
  from a b c d show ?thesis by blast
qed

lemmas inventory_defs = inventory_attempt_def inventory_except_def inventory_max_retries_def
  truthy_def get_or_def

theorem inventory_attempt_slots_witness:
  "fst (limiter_handle_429
          (snd (session_get (always_429 :: page option world)
                  (SteamMarketAPI 24 Map.empty 1700000000)))) = None
   \<and> fst (inventory_attempt always_429 0 (SteamMarketAPI 24 Map.empty 1700000000)) = NextAttempt 1
   \<and> slept (snd (inventory_attempt always_429 0 (SteamMarketAPI 24 Map.empty 1700000000))) = [2]
   \<and> retry_loop always_429 0 (SteamMarketAPI 24 Map.empty 1700000000)
       = retry_loop always_429 1
           (snd (limiter_handle_429
              (snd (session_get (always_429 :: page option world)
                      (SteamMarketAPI 24 Map.empty 1700000000)))))
   \<and> fst (inventory_attempt always_down 0 (SteamMarketAPI 24 Map.empty 1700000000)) = NextAttempt 1
   \<and> slept (snd (inventory_attempt always_down 0 (SteamMarketAPI 24 Map.empty 1700000000))) = [2]
   \<and> fst (inventory_attempt always_down 4 (SteamMarketAPI 24 Map.empty 1700000000))
       = ReturnAccumulated
   \<and> fst (inventory_attempt always_malformed 2 (SteamMarketAPI 24 Map.empty 1700000000))
       = NextAttempt 3
   \<and> slept (snd (inventory_attempt always_malformed 2 (SteamMarketAPI 24 Map.empty 1700000000)))
       = [8]"
proof -
  let ?c = "SteamMarketAPI 24 Map.empty 1700000000"
  let ?w1 = "always_429 :: page option world"
  let ?w2 = "always_down :: page option world"
  let ?w3 = "always_malformed :: page option world"
  have n1: "net ?w1 (requests ?c) = Response 429 JSONDecodeError"
    by (simp add: always_429_def)
  have n2: "net ?w2 (requests ?c) = Raises RequestException"
    by (simp add: always_down_def)
  have n3: "net ?w3 (requests ?c) = Response 200 JSONDecodeError
      \<and> (200::nat) \<noteq> 429 \<and> \<not> raise_for_status 200"
    by (simp add: always_malformed_def raise_for_status_def)
  have lt: "(0::nat) < 5" by simp
  have h: "limiter_handle_429 (snd (session_get ?w1 ?c))
      = (None, time_sleep 2 ((snd (session_get ?w1 ?c))
            \<lparr>limiter := (RateLimiter 1 60 (1/5))\<lparr>consecutive_429 := 1\<rparr>\<rparr>))"
    by (simp add: client_defs)
  note t1 = inventory_attempt_slots [where w = ?w1 and retry_count = 0 and s = ?c]
  note t2 = inventory_attempt_slots [where w = ?w2 and retry_count = 0 and s = ?c]
  note t3 = inventory_attempt_slots [where w = ?w2 and retry_count = 4 and s = ?c]
  note t4 = inventory_attempt_slots [where w = ?w3 and retry_count = 2 and s = ?c]
  from t1 n1 have a1: "inventory_attempt ?w1 0 ?c
      = (case fst (limiter_handle_429 (snd (session_get ?w1 ?c))) of
           None \<Rightarrow> (NextAttempt (0 + 1), snd (limiter_handle_429 (snd (session_get ?w1 ?c))))
         | Some e \<Rightarrow> (Uncaught e, snd (limiter_handle_429 (snd (session_get ?w1 ?c)))))"
    by blast
  from t1 n1 lt h have a2: "retry_loop ?w1 0 ?c
      = retry_loop ?w1 (0 + 1) (snd (limiter_handle_429 (snd (session_get ?w1 ?c))))"
    by simp
  from t2 n2 have b1: "inventory_attempt ?w2 0 ?c
      = (if 0 + 1 \<ge> (5::nat) then (ReturnAccumulated, snd (session_get ?w2 ?c))
         else (NextAttempt (0 + 1),
               time_sleep (real (min (2 ^ (0 + 1)) 60)) (snd (session_get ?w2 ?c))))"
    by blast
  from t3 n2 have b2: "inventory_attempt ?w2 4 ?c
      = (if 4 + 1 \<ge> (5::nat) then (ReturnAccumulated, snd (session_get ?w2 ?c))
         else (NextAttempt (4 + 1),
               time_sleep (real (min (2 ^ (4 + 1)) 60)) (snd (session_get ?w2 ?c))))"
    by blast
  from t4 n3 have c1: "inventory_attempt ?w3 2 ?c
      = (if 2 + 1 \<ge> (5::nat)
         then (ReturnAccumulated, limiter_success (snd (session_get ?w3 ?c)))
         else (NextAttempt (2 + 1),
               time_sleep (real (min (2 ^ (2 + 1)) 60))
                 (limiter_success (snd (session_get ?w3 ?c)))))"
    by blast
  show ?thesis
    unfolding a1 b1 b2 c1 using a2
    by (simp add: h) (simp add: client_defs)
qed

text \<open>
  Claim C2, as stated, fails: a rejection does use a slot. After one response with the
  status 429 the count is 1, not 0; and after five of them, with no other failure, the
  loop is over though the sixth request would have been answered by a page.
\<close>

theorem retry_429_uses_slot_counterexample:
  "fst (inventory_attempt always_429 0 (SteamMarketAPI 24 Map.empty 1700000000)) \<noteq> NextAttempt 0
   \<and> delivered (net five_429_then_page 5) = Some (Some page_2)
   \<and> fst (retry_loop five_429_then_page 0 (SteamMarketAPI 24 Map.empty 1700000000))
       \<noteq> Broke (Some page_2)
   \<and> requests (snd (retry_loop five_429_then_page 0 (SteamMarketAPI 24 Map.empty 1700000000))) = 5"
  by (simp add: retry_loop.simps inventory_defs always_429_def five_429_then_page_def
      delivered_def client_defs)

text \<open>
  Claim C3 fails on the code when the last slot of a page goes to a response with the
  status 429: the inner loop then ends by its condition and line 156 reads \<^verbatim>\<open>data\<close>.
  On the first page the variable is unbound and the function raises
  \<^verbatim>\<open>UnboundLocalError\<close>. On a later page it still holds the page before: its assets are
  added a second time and the paging goes on. When the last slot goes to an exception
  instead, line 150 returns what was accumulated, as the claim says.
\<close>

theorem fetch_csgo_inventory_exhausted_by_429:
  "map_option fst (fetch_csgo_inventory 1 always_429 (SteamMarketAPI 24 Map.empty 1700000000))
     = Some (Inl UnboundLocalError)
   \<and> map_option fst
        (fetch_csgo_inventory 3 page_then_429 (SteamMarketAPI 24 Map.empty 1700000000))
     = Some (Inr \<lparr>assets = [asset_1, asset_1, asset_2], descriptions = [description_1]\<rparr>)
   \<and> map_option fst (fetch_csgo_inventory 1 always_down (SteamMarketAPI 24 Map.empty 1700000000))
     = Some (Inr \<lparr>assets = [], descriptions = []\<rparr>)"
  by (simp add: fetch_csgo_inventory_def fetch_loop.simps retry_loop.simps inventory_defs
      always_429_def
      page_then_429_def always_down_def page_1_def page_2_def delivered_def client_defs)

text \<open>
  The backoff of a limiter sleeps, and does not raise, when its base delay and its cap
  are not negative and its counter is below 1023.
\<close>

lemma limiter_handle_429_sleeps:
  assumes "0 \<le> base_delay (limiter s)" and "0 \<le> max_delay (limiter s)"
    and "consecutive_429 (limiter s) < 1023"
  shows "fst (limiter_handle_429 s) = None"
    and "requests (snd (limiter_handle_429 s)) = requests s"
    and "base_delay (limiter (snd (limiter_handle_429 s))) = base_delay (limiter s)"
    and "max_delay (limiter (snd (limiter_handle_429 s))) = max_delay (limiter s)"
    and "consecutive_429 (limiter (snd (limiter_handle_429 s))) = consecutive_429 (limiter s) + 1"
  using assms
  by (simp_all add: limiter_handle_429_def handle_429_def time_sleep_def Let_def not_less)

lemma limiter_wait_limiter [simp]:
  "base_delay (limiter (limiter_wait w s)) = base_delay (limiter s)"
  "max_delay (limiter (limiter_wait w s)) = max_delay (limiter s)"
  "consecutive_429 (limiter (limiter_wait w s)) = consecutive_429 (limiter s)"
  by (simp_all add: limiter_wait_def wait_def time_sleep_def split_def Let_def)

lemma inventory_attempt_failed:
  assumes "delivered (net w (requests s)) = None" and "retry_count + 1 < inventory_max_retries"
    and "0 \<le> base_delay (limiter s)" and "0 \<le> max_delay (limiter s)"
    and "consecutive_429 (limiter s) < 1023"
  shows "\<exists>s1. inventory_attempt w retry_count s = (NextAttempt (retry_count + 1), s1)
    \<and> requests s1 = Suc (requests s)
    \<and> base_delay (limiter s1) = base_delay (limiter s)
    \<and> max_delay (limiter s1) = max_delay (limiter s)
    \<and> consecutive_429 (limiter s1) \<le> consecutive_429 (limiter s) + 1"
proof -
  let ?s1 = "snd (session_get w s)"
  have l: "limiter ?s1 = limiter s" by (simp add: session_get_def)
  note h = limiter_handle_429_sleeps [of ?s1, unfolded l, OF assms(3,4,5)]
  show ?thesis
  proof (cases "\<exists>body. net w (requests s) = Response 429 body")
    case True
    then have "inventory_attempt w retry_count s
        = (NextAttempt (retry_count + 1), snd (limiter_handle_429 ?s1))"
      using h(1) by (auto simp: inventory_attempt_def split_def Let_def split: option.splits)
    with h show ?thesis by simp
  next
    case False
    with assms(1,2) show ?thesis
      by (auto simp: inventory_attempt_def inventory_except_def delivered_def split_def Let_def
          session_get_def limiter_success_def success_def time_sleep_def
          split: outcome.splits json.splits if_splits)
  qed
qed

lemma retry_loop_after_failures:
  assumes "\<forall>i<k. delivered (net w (requests s + i)) = None"
    and "delivered (net w (requests s + k)) = Some d"
    and "retry_count + k < inventory_max_retries"
    and "0 \<le> base_delay (limiter s)" and "0 \<le> max_delay (limiter s)"
    and "consecutive_429 (limiter s) + k \<le> 1023"
  shows "\<exists>s'. retry_loop w retry_count s = (Broke d, s') \<and> requests s' = requests s + k + 1
    \<and> base_delay (limiter s') = base_delay (limiter s)
    \<and> max_delay (limiter s') = max_delay (limiter s)
    \<and> consecutive_429 (limiter s') = 0"
  using assms
proof (induction k arbitrary: retry_count s)
  case 0
  then obtain st where "net w (requests s) = Response st (Parsed d)" "st \<noteq> 429"
    "\<not> raise_for_status st" by (auto simp: delivered_Some)
  then have "inventory_attempt w retry_count s
      = (Break d, limiter_success (snd (session_get w s)))"
    by (simp add: inventory_attempt_def split_def Let_def)
  with "0.prems"(3) show ?case
    by (subst retry_loop.simps)
      (simp add: limiter_success_def success_def session_get_def)
next
  case (Suc k)
  from Suc.prems have "delivered (net w (requests s)) = None"
    "retry_count + 1 < inventory_max_retries" "0 \<le> base_delay (limiter s)"
    "0 \<le> max_delay (limiter s)" "consecutive_429 (limiter s) < 1023" by auto
  from inventory_attempt_failed [OF this] obtain s1 where
    s1: "inventory_attempt w retry_count s = (NextAttempt (retry_count + 1), s1)"
      "requests s1 = Suc (requests s)"
    and l1: "base_delay (limiter s1) = base_delay (limiter s)"
      "max_delay (limiter s1) = max_delay (limiter s)"
      "consecutive_429 (limiter s1) \<le> consecutive_429 (limiter s) + 1" by blast
  have "\<forall>i<k. delivered (net w (requests s1 + i)) = None"
    using Suc.prems(1) by (auto simp: s1)
  moreover have "delivered (net w (requests s1 + k)) = Some d"
    using Suc.prems(2) by (simp add: s1)
  moreover have "(retry_count + 1) + k < inventory_max_retries" using Suc.prems(3) by simp
  moreover have "0 \<le> base_delay (limiter s1)" "0 \<le> max_delay (limiter s1)"
    using Suc.prems(4,5) by (simp_all add: l1)
  moreover have "consecutive_429 (limiter s1) + k \<le> 1023"
    using Suc.prems(6) l1(3) by simp
  ultimately obtain s' where
    s': "retry_loop w (retry_count + 1) s1 = (Broke d, s')" "requests s' = requests s1 + k + 1"
      "base_delay (limiter s') = base_delay (limiter s1)"
      "max_delay (limiter s') = max_delay (limiter s1)"
      "consecutive_429 (limiter s') = 0"
    using Suc.IH [of s1 "retry_count + 1"] by blast
  have "retry_loop w retry_count s = retry_loop w (retry_count + 1) s1"
    using Suc.prems(3) by (subst retry_loop.simps) (simp add: s1)
  with s' show ?case by (simp add: s1 l1)
qed

lemma fetch_loop_pages:
  assumes "served w (requests s) ((k, p) # rest)"
    and "\<forall>q \<in> set (butlast (map snd ((k, p) # rest))). continues q"
    and "\<not> continues (last (map snd ((k, p) # rest)))"
    and "length ((k, p) # rest) \<le> fuel"
    and "0 \<le> base_delay (limiter s)" and "0 \<le> max_delay (limiter s)"
    and "consecutive_429 (limiter s) + k \<le> 1023"
  shows "\<exists>s'. fetch_loop fuel w acc descs la True first dat s
      = Some (Inr \<lparr>assets = acc @ concat (map (\<lambda>q. get_or (page_assets q) [])
                                             (map snd ((k, p) # rest))),
                   descriptions = (if first then get_or (page_descriptions p) [] else descs)\<rparr>,
              s')
    \<and> requests s' = requests s + (\<Sum>x\<leftarrow>(k, p) # rest. fst x + 1)"
  using assms
proof (induction rest arbitrary: k p fuel acc descs la first dat s)
  case Nil
  then obtain f where fuel: "fuel = Suc f" by (cases fuel) auto
  let ?s1 = "limiter_wait w s"
  from Nil.prems(1) have "\<forall>i<k. delivered (net w (requests ?s1 + i)) = None"
    "delivered (net w (requests ?s1 + k)) = Some (Some p)" "0 + k < inventory_max_retries"
    by simp_all
  moreover from Nil.prems(5,6,7) have "0 \<le> base_delay (limiter ?s1)"
    "0 \<le> max_delay (limiter ?s1)" "consecutive_429 (limiter ?s1) + k \<le> 1023" by simp_all
  ultimately obtain s2 where
    r: "retry_loop w 0 ?s1 = (Broke (Some p), s2)" and req2: "requests s2 = requests s + k + 1"
    using retry_loop_after_failures [of k w ?s1 "Some p" 0] by auto
  from Nil.prems(3) have stop: "\<not> (get_or (page_more_items p) 0 = 1 \<and> truthy (page_last_assetid p))"
    by (simp add: continues_def)
  have "fetch_loop fuel w acc descs la True first dat s
      = Some (Inr \<lparr>assets = acc @ get_or (page_assets p) [],
                   descriptions = (if first then get_or (page_descriptions p) [] else descs)\<rparr>,
              s2)"
    unfolding fuel using stop by (subst fetch_loop.simps) (auto simp: r Let_def)
  with req2 show ?case by simp
next
  case (Cons x rest)
  obtain k' q where x: "x = (k', q)" by (cases x)
  from Cons.prems(4) obtain f where fuel: "fuel = Suc f" by (cases fuel) auto
  let ?s1 = "limiter_wait w s"
  let ?descs1 = "if first then get_or (page_descriptions p) [] else descs"
  from Cons.prems(1) have "\<forall>i<k. delivered (net w (requests ?s1 + i)) = None"
    "delivered (net w (requests ?s1 + k)) = Some (Some p)" "0 + k < inventory_max_retries"
    by simp_all
  moreover from Cons.prems(5,6,7) have "0 \<le> base_delay (limiter ?s1)"
    "0 \<le> max_delay (limiter ?s1)" "consecutive_429 (limiter ?s1) + k \<le> 1023" by simp_all
  ultimately obtain s2 where
    r: "retry_loop w 0 ?s1 = (Broke (Some p), s2)" and req2: "requests s2 = requests s + k + 1"
    and l2: "base_delay (limiter s2) = base_delay (limiter s)"
      "max_delay (limiter s2) = max_delay (limiter s)" "consecutive_429 (limiter s2) = 0"
    using retry_loop_after_failures [of k w ?s1 "Some p" 0] by auto
  from Cons.prems(2) have go: "get_or (page_more_items p) 0 = 1" "truthy (page_last_assetid p)"
    by (simp_all add: continues_def)
  have step: "fetch_loop fuel w acc descs la True first dat s
      = fetch_loop f w (acc @ get_or (page_assets p) []) ?descs1 (page_last_assetid p)
          True False (Bound (Some p)) s2"
    unfolding fuel using go by (subst fetch_loop.simps) (simp add: r Let_def)
  have srv: "served w (requests s2) ((k', q) # rest)" using Cons.prems(1) by (simp add: req2 x)
  then have "k' < inventory_max_retries" by simp
  then have "consecutive_429 (limiter s2) + k' \<le> 1023"
    by (simp add: l2 inventory_max_retries_def)
  moreover have "\<forall>y \<in> set (butlast (map snd ((k', q) # rest))). continues y"
    using Cons.prems(2) by (simp add: x)
  moreover have "\<not> continues (last (map snd ((k', q) # rest)))"
    using Cons.prems(3) by (simp add: x)
  moreover have "length ((k', q) # rest) \<le> f" using Cons.prems(4) fuel by simp
  moreover have "0 \<le> base_delay (limiter s2)" "0 \<le> max_delay (limiter s2)"
    using Cons.prems(5,6) by (simp_all add: l2)
  ultimately obtain s' where s': "fetch_loop f w (acc @ get_or (page_assets p) []) ?descs1
        (page_last_assetid p) True False (Bound (Some p)) s2
      = Some (Inr \<lparr>assets = (acc @ get_or (page_assets p) [])
                     @ concat (map (\<lambda>q. get_or (page_assets q) []) (map snd ((k', q) # rest))),
                   descriptions = (if False then get_or (page_descriptions q) [] else ?descs1)\<rparr>,
              s')"
    "requests s' = requests s2 + (\<Sum>x\<leftarrow>(k', q) # rest. fst x + 1)"
    using srv Cons.IH [of s2 k' q f "acc @ get_or (page_assets p) []" ?descs1
        "page_last_assetid p" False "Bound (Some p)"]
    by blast
  from s' show ?case
    unfolding step x by (simp add: req2)
qed

text \<open>
  Claim C5. Let the requests of a run be answered, in order, by the pages \<open>ps\<close>, each after
  fewer failed attempts than the retry loop has slots, where every page but the last
  reports \<^verbatim>\<open>more_items\<close> as 1 with a cursor that is not empty, and the last page does
  not; and let the limiter have a base delay and a cap that are not negative and a
  counter with room for the rejections of one page below 1024, so that its backoff does
  not raise. Then, with fuel for these pages, \<^verbatim>\<open>fetch_csgo_inventory\<close> returns the assets
  of the pages appended in their order and the descriptions of the first page, and it
  has sent the requests of these pages and none after the last: the loop went on after
  exactly the pages that asked for more.
\<close>

theorem fetch_csgo_inventory_pages:
  fixes fetched :: "(nat \<times> page) list"
  defines "ps \<equiv> map snd fetched"
  assumes pages: "fetched \<noteq> []"
    and served: "served w (requests s) fetched"
    and more: "\<forall>p \<in> set (butlast ps). continues p"
    and last: "\<not> continues (last ps)"
    and fuel: "length ps \<le> fuel"
    and base: "0 \<le> base_delay (limiter s)"
    and cap: "0 \<le> max_delay (limiter s)"
    and room: "consecutive_429 (limiter s) + inventory_max_retries \<le> 1024"
  shows "\<exists>s'. fetch_csgo_inventory fuel w s
      = Some (Inr \<lparr>assets = concat (map (\<lambda>p. get_or (page_assets p) []) ps),
                   descriptions = get_or (page_descriptions (hd ps)) []\<rparr>,
              s')
    \<and> requests s' = requests s + (\<Sum>x\<leftarrow>fetched. fst x + 1)"
proof -
  from pages obtain k p rest where f: "fetched = (k, p) # rest"
    by (cases fetched) auto
  from served have "k < inventory_max_retries" by (simp add: f)
  with room have "consecutive_429 (limiter s) + k \<le> 1023" by simp
  with fetch_loop_pages [of w s k p rest fuel "[]" "[]" None True Unbound]
    served more last fuel base cap
  show ?thesis
    unfolding ps_def f fetch_csgo_inventory_def by simp
qed

theorem fetch_csgo_inventory_pages_witness:
  "[(1::nat, page_1), (2, page_2)] \<noteq> []
   \<and> served two_pages (requests (SteamMarketAPI 24 Map.empty 1700000000))
        [(1, page_1), (2, page_2)]
   \<and> butlast (map snd [(1::nat, page_1), (2, page_2)]) = [page_1]
   \<and> continues page_1
   \<and> \<not> continues (last (map snd [(1::nat, page_1), (2, page_2)]))
   \<and> length (map snd [(1::nat, page_1), (2, page_2)]) \<le> 7
   \<and> 0 \<le> base_delay (limiter (SteamMarketAPI 24 Map.empty 1700000000))
   \<and> 0 \<le> max_delay (limiter (SteamMarketAPI 24 Map.empty 1700000000))
   \<and> consecutive_429 (limiter (SteamMarketAPI 24 Map.empty 1700000000)) + inventory_max_retries
       \<le> 1024
   \<and> (\<exists>s'. fetch_csgo_inventory 7 two_pages (SteamMarketAPI 24 Map.empty 1700000000)
          = Some (Inr \<lparr>assets = [asset_1, asset_2], descriptions = [description_1]\<rparr>, s')
        \<and> requests s' = 5)"
proof -
  let ?c = "SteamMarketAPI 24 Map.empty 1700000000"
  let ?f = "[(1::nat, page_1), (2, page_2)]"
  have h1: "?f \<noteq> []" by simp
  have h2: "served two_pages (requests ?c) ?f"
    by (simp add: two_pages_def SteamMarketAPI_def delivered_def raise_for_status_def
        inventory_max_retries_def less_Suc_eq numeral_2_eq_2)
  have h3: "\<forall>p \<in> set (butlast (map snd ?f)). continues p"
    by (simp add: continues_def page_1_def get_or_def truthy_def)
  have h4: "\<not> continues (last (map snd ?f))"
    by (simp add: continues_def page_2_def get_or_def truthy_def)
  have h5: "length (map snd ?f) \<le> 7" by simp
  have h6: "0 \<le> base_delay (limiter ?c)" "0 \<le> max_delay (limiter ?c)"
    "consecutive_429 (limiter ?c) + inventory_max_retries \<le> 1024"
    by (simp_all add: SteamMarketAPI_def RateLimiter_def inventory_max_retries_def)
  have req: "requests ?c = 0" by (simp add: SteamMarketAPI_def)
  have vals: "concat (map (\<lambda>p. get_or (page_assets p) []) (map snd ?f)) = [asset_1, asset_2]"
    "get_or (page_descriptions (hd (map snd ?f))) [] = [description_1]"
    by (simp_all add: page_1_def page_2_def get_or_def)
  from fetch_csgo_inventory_pages [OF h1 h2 h3 h4 h5 h6]
  have "\<exists>s'. fetch_csgo_inventory 7 two_pages ?c
          = Some (Inr \<lparr>assets = [asset_1, asset_2], descriptions = [description_1]\<rparr>, s')
        \<and> requests s' = 5"
    unfolding vals req by (simp add: eval_nat_numeral)
  moreover have "butlast (map snd ?f) = [page_1]" by simp
  moreover from h3 have "continues page_1" by simp
  ultimately show ?thesis using h1 h2 h4 h5 h6 by blast
qed

end
